theory Spec2Isabelle
  imports Main "HOL-Library.Monad_Syntax" "HOL-Library.Word"
begin

section \<open>Algorithm C (exact covering with colors) as coded in XCC\<close>

text \<open>
  The Go function \<^verbatim>\<open>XCC\<close> keeps its working memory in closure variables (integer
  slices indexed by small integers) and mutates them in place.  The model passes these
  variables around as one record.  Go's \<^verbatim>\<open>int\<close> is modelled by \<^typ>\<open>int\<close>: every
  value held is an index into, or a count bounded by, the tables, so the 64-bit range is
  never left.  A slice access outside its bounds panics; every access goes through
  \<open>rd\<close>/\<open>wr\<close>, and the result \<open>None\<close> of an operation stands for "does not return
  normally" (a panic or a loop that never ends).  Writing to the log (\<^verbatim>\<open>dump\<close>,
  \<^verbatim>\<open>showProgress\<close>, \<^verbatim>\<open>log.Printf\<close>) is not modelled.
\<close>

subsection \<open>Slices\<close>

definition rd :: "'a list \<Rightarrow> int \<Rightarrow> 'a option" where
  "rd xs k = (if 0 \<le> k \<and> k < int (length xs) then Some (xs ! nat k) else None)"

definition wr :: "'a list \<Rightarrow> int \<Rightarrow> 'a \<Rightarrow> 'a list option" where
  "wr xs k v = (if 0 \<le> k \<and> k < int (length xs) then Some (xs[nat k := v]) else None)"

subsection \<open>Data\<close>

record XCCOptions =
  Minimax :: bool
  MinimaxSingle :: bool
  Exercise83 :: bool

text \<open>
  Modelled from the spec: the declaration of the type \<^verbatim>\<open>ExactCoverStats\<close> is not
  among the sources; the fields are the ones \<^verbatim>\<open>XCC\<close> reads and writes, as section 6
  of the specification lists them.  The numeric fields are Go's \<^verbatim>\<open>int\<close> (\<^verbatim>\<open>Levels\<close> is
  made by \<^verbatim>\<open>make([]int, n)\<close>), taken 64 bits wide: \<^verbatim>\<open>++\<close> and \<^verbatim>\<open>+=\<close> wrap around,
  and comparisons read the words as signed (\<open>sint\<close>).  A nil \<^verbatim>\<open>Levels\<close> slice is the
  empty list.
\<close>

record ExactCoverStats =
  Solutions :: "64 word"
  Nodes :: "64 word"
  Levels :: "64 word list"
  MaxLevel :: "64 word"
  Theta :: "64 word"
  Delta :: "64 word"
  Debug :: bool
  Progress :: bool
  Verbosity :: "64 word"

text \<open>
  The closure variables of \<^verbatim>\<open>XCC\<close>.  \<open>top'\<close> is the slice \<^verbatim>\<open>top\<close>; \<^verbatim>\<open>llen\<close> is
  the slice \<^verbatim>\<open>top[0 : n+1]\<close> of the same backing array, so \<^verbatim>\<open>llen[x]\<close> is
  \<open>top' ! x\<close> with the bound \<open>n + 1\<close>.
\<close>

record xcc =
  n1' :: int
  n2' :: int
  n' :: int
  size' :: int
  name :: "string list"
  llink :: "int list"
  rlink :: "int list"
  top' :: "int list"
  ulink :: "int list"
  dlink :: "int list"
  color :: "int list"
  colors :: "string list"
  level :: int
  state :: "int list"
  cutoff :: int

text \<open>
  The rest of what the driver changes: the caller's statistics structure (\<open>None\<close> for a
  nil pointer), the flag \<^verbatim>\<open>progress\<close> copied from it by \<^verbatim>\<open>initialize\<close>, and
  \<open>visited\<close>, the arguments of the calls of the visitor so far, in call order.
\<close>

record search =
  tab :: xcc
  stats :: "ExactCoverStats option"
  progress :: bool
  visited :: "string list list list"

definition rd_llen :: "xcc \<Rightarrow> int \<Rightarrow> int option" where
  "rd_llen s x = (if x \<le> n' s then rd (top' s) x else None)"

definition wr_llen :: "xcc \<Rightarrow> int \<Rightarrow> int \<Rightarrow> xcc option" where
  "wr_llen s x v =
     (if x \<le> n' s then do { t \<leftarrow> wr (top' s) x v; Some (s\<lparr>top' := t\<rparr>) } else None)"

datatype error =
    ItemsEmpty
  | ItemNotUnique string
  | SecondaryNotUnique string
  | OptionUnknownItem "string list" string

subsection \<open>validate\<close>

definition has_colon :: "string \<Rightarrow> bool" where
  "has_colon item = (CHR '':'' \<in> set item)"

definition item_part :: "string \<Rightarrow> string" where
  "item_part item = takeWhile (\<lambda>c. c \<noteq> CHR '':'') item"

definition color_part :: "string \<Rightarrow> string" where
  "color_part item = drop 1 (dropWhile (\<lambda>c. c \<noteq> CHR '':'') item)"

fun validate_items :: "(string \<Rightarrow> bool) \<Rightarrow> string list \<Rightarrow> error + (string \<Rightarrow> bool)" where
  "validate_items mItems [] = Inr mItems"
| "validate_items mItems (item # rest) =
     (if mItems item then Inl (ItemNotUnique item)
      else validate_items (mItems(item := True)) rest)"

fun validate_secondary ::
  "(string \<Rightarrow> bool) \<Rightarrow> (string \<Rightarrow> bool) \<Rightarrow> string list \<Rightarrow> error + (string \<Rightarrow> bool)" where
  "validate_secondary mItems mSItems [] = Inr mSItems"
| "validate_secondary mItems mSItems (sitem # rest) =
     (if mItems sitem \<or> mSItems sitem then Inl (SecondaryNotUnique sitem)
      else validate_secondary mItems (mSItems(sitem := True)) rest)"

fun validate_option ::
  "(string \<Rightarrow> bool) \<Rightarrow> (string \<Rightarrow> bool) \<Rightarrow> string list \<Rightarrow> string list \<Rightarrow> error option" where
  "validate_option mItems mSItems option [] = None"
| "validate_option mItems mSItems option (item # rest) =
     (let item' = (if has_colon item then item_part item else item)
      in if \<not> mItems item' \<and> \<not> mSItems item' then Some (OptionUnknownItem option item')
         else validate_option mItems mSItems option rest)"

fun validate_options ::
  "(string \<Rightarrow> bool) \<Rightarrow> (string \<Rightarrow> bool) \<Rightarrow> string list list \<Rightarrow> error option" where
  "validate_options mItems mSItems [] = None"
| "validate_options mItems mSItems (option # rest) =
     (case validate_option mItems mSItems option option of
        Some e \<Rightarrow> Some e
      | None \<Rightarrow> validate_options mItems mSItems rest)"

definition validate :: "string list \<Rightarrow> string list list \<Rightarrow> string list \<Rightarrow> error option" where
  "validate items options secondary =
     (if length items = 0 then Some ItemsEmpty
      else case validate_items (\<lambda>_. False) items of
        Inl e \<Rightarrow> Some e
      | Inr mItems \<Rightarrow>
          (case validate_secondary mItems (\<lambda>_. False) secondary of
             Inl e \<Rightarrow> Some e
           | Inr mSItems \<Rightarrow> validate_options mItems mSItems options))"

subsection \<open>initialize\<close>

text \<open>The first block of \<^verbatim>\<open>initialize\<close>, on the statistics structure.\<close>

definition init_stats :: "int \<Rightarrow> ExactCoverStats \<Rightarrow> ExactCoverStats" where
  "init_stats k st =
     st\<lparr>Theta := Delta st, MaxLevel := - 1,
        Levels := Levels st @ replicate (nat k - length (Levels st)) 0\<rparr>"

fun init_items :: "string list \<Rightarrow> int \<Rightarrow> xcc \<Rightarrow> xcc option" where
  "init_items [] j s = Some s"
| "init_items (item # rest) j s =
     do {
       let i = j + 1;
       nm \<leftarrow> wr (name s) i item;
       ll \<leftarrow> wr (llink s) i (i - 1);
       rl \<leftarrow> wr (rlink s) (i - 1) i;
       init_items rest (j + 1) (s\<lparr>name := nm, llink := ll, rlink := rl\<rparr>)
     }"

definition init_lists :: "xcc \<Rightarrow> xcc option" where
  "init_lists s =
     do {
       ll \<leftarrow> wr (llink s) (n' s + 1) (n' s);
       rl \<leftarrow> wr (rlink s) (n' s) (n' s + 1);
       ll \<leftarrow> wr ll (n1' s + 1) (n' s + 1);
       rl \<leftarrow> wr rl (n' s + 1) (n1' s + 1);
       ll \<leftarrow> wr ll 0 (n1' s);
       rl \<leftarrow> wr rl (n1' s) 0;
       Some (s\<lparr>llink := ll, rlink := rl\<rparr>)
     }"

fun init_empty :: "nat \<Rightarrow> int \<Rightarrow> xcc \<Rightarrow> xcc option" where
  "init_empty 0 i s = Some s"
| "init_empty (Suc k) i s =
     do {
       s \<leftarrow> wr_llen s i 0;
       ul \<leftarrow> wr (ulink s) i i;
       dl \<leftarrow> wr (dlink s) i i;
       init_empty k (i + 1) (s\<lparr>ulink := ul, dlink := dl\<rparr>)
     }"

fun color_index :: "string \<Rightarrow> string list \<Rightarrow> int \<Rightarrow> int" where
  "color_index cname [] k = k"
| "color_index cname (c # cs) k = (if cname = c then k else color_index cname cs (k + 1))"

fun name_index :: "string \<Rightarrow> string list \<Rightarrow> int \<Rightarrow> int" where
  "name_index item [] k = k"
| "name_index item (v # vs) k = (if v = item then k else name_index item vs (k + 1))"

partial_function (option) find_tail :: "int list \<Rightarrow> int \<Rightarrow> int \<Rightarrow> int option" where
  "find_tail dl head tail =
     do {
       d \<leftarrow> rd dl tail;
       if d \<noteq> head then find_tail dl head d else Some tail
     }"

definition init_node :: "string \<Rightarrow> int \<Rightarrow> xcc \<Rightarrow> xcc option" where
  "init_node item0 x s =
     do {
       let (item, itemColor, cols) =
         (if has_colon item0 then
            let itemColorName = color_part item0;
                k = color_index itemColorName (drop 1 (colors s)) 1
            in (item_part item0, k,
                if k = int (length (colors s)) then colors s @ [itemColorName] else colors s)
          else (item0, 0, colors s));
       let i = name_index item (name s) 0;
       tp \<leftarrow> wr (top' s) x i;
       cl \<leftarrow> wr (color s) x itemColor;
       let s = s\<lparr>top' := tp, color := cl, colors := cols\<rparr>;
       l \<leftarrow> rd_llen s i;
       s \<leftarrow> wr_llen s i (l + 1);
       tail \<leftarrow> find_tail (dlink s) i i;
       dl \<leftarrow> wr (dlink s) tail x;
       ul \<leftarrow> wr (ulink s) x tail;
       ul \<leftarrow> wr ul i x;
       dl \<leftarrow> wr dl x i;
       Some (s\<lparr>ulink := ul, dlink := dl\<rparr>)
     }"

fun init_option :: "string list \<Rightarrow> int \<Rightarrow> xcc \<Rightarrow> (int \<times> xcc) option" where
  "init_option [] x s = Some (x, s)"
| "init_option (item # rest) x s =
     do {
       s \<leftarrow> init_node item (x + 1) s;
       init_option rest (x + 1) s
     }"

fun init_options :: "string list list \<Rightarrow> int \<Rightarrow> int \<Rightarrow> int \<Rightarrow> xcc \<Rightarrow> xcc option" where
  "init_options [] x spacer spacerX s = Some s"
| "init_options (option # rest) x spacer spacerX s =
     do {
       (x, s) \<leftarrow> init_option option x s;
       dl \<leftarrow> wr (dlink s) spacerX x;
       let x = x + 1;
       ul \<leftarrow> wr (ulink s) x (spacerX + 1);
       let spacer = spacer - 1;
       tp \<leftarrow> wr (top' s) x spacer;
       init_options rest x spacer x (s\<lparr>dlink := dl, ulink := ul, top' := tp\<rparr>)
     }"

definition MaxInt16 :: int where
  "MaxInt16 = 32767"

definition initialize ::
  "string list \<Rightarrow> string list list \<Rightarrow> string list \<Rightarrow> xcc option" where
  "initialize items options secondary =
     do {
       let k1 = int (length items);
       let k2 = int (length secondary);
       let k = k1 + k2;
       let nOptions = int (length options);
       let nOptionItems = sum_list (map (\<lambda>option. int (length option)) options);
       let sz = k + 1 + nOptions + 1 + nOptionItems;
       let s = \<lparr>n1' = k1, n2' = k2, n' = k, size' = sz,
                name = replicate (nat (k + 2)) [],
                llink = replicate (nat (k + 2)) 0,
                rlink = replicate (nat (k + 2)) 0,
                top' = replicate (nat sz) 0,
                ulink = replicate (nat sz) 0,
                dlink = replicate (nat sz) 0,
                color = replicate (nat sz) 0,
                colors = [[]],
                level = 0, state = [], cutoff = 0\<rparr>;
       s \<leftarrow> init_items (items @ secondary) 0 s;
       s \<leftarrow> init_lists s;
       s \<leftarrow> init_empty (nat k) 1 s;
       tp \<leftarrow> wr (top' s) (k + 1) 0;
       s \<leftarrow> init_options options (k + 1) 0 (k + 1) (s\<lparr>top' := tp\<rparr>);
       Some (s\<lparr>level := 0, state := replicate (nat nOptions) 0, cutoff := MaxInt16\<rparr>)
     }"

subsection \<open>The link primitives\<close>

partial_function (option) mrv_loop :: "xcc \<Rightarrow> int \<Rightarrow> int \<Rightarrow> int \<Rightarrow> int option" where
  "mrv_loop s i theta p =
     (if p \<noteq> 0 then
        do {
          lambda \<leftarrow> rd_llen s p;
          if lambda < theta \<or> theta = - 1 then
            (if lambda = 0 then Some p
             else do { p' \<leftarrow> rd (rlink s) p; mrv_loop s p lambda p' })
          else do { p' \<leftarrow> rd (rlink s) p; mrv_loop s i theta p' }
        }
      else Some i)"

definition mrv :: "xcc \<Rightarrow> int option" where
  "mrv s = do { p \<leftarrow> rd (rlink s) 0; mrv_loop s 0 (- 1) p }"

text \<open>\<^verbatim>\<open>dlink[u], ulink[d] = d, u; llen[x]--\<close>\<close>

definition unlink :: "int \<Rightarrow> int \<Rightarrow> int \<Rightarrow> xcc \<Rightarrow> xcc option" where
  "unlink u d x s =
     do {
       dl \<leftarrow> wr (dlink s) u d;
       ul \<leftarrow> wr (ulink s) d u;
       let s = s\<lparr>dlink := dl, ulink := ul\<rparr>;
       l \<leftarrow> rd_llen s x;
       wr_llen s x (l - 1)
     }"

text \<open>\<^verbatim>\<open>dlink[u], ulink[d] = q, q; llen[x]++\<close>\<close>

definition relink :: "int \<Rightarrow> int \<Rightarrow> int \<Rightarrow> int \<Rightarrow> xcc \<Rightarrow> xcc option" where
  "relink u d q x s =
     do {
       dl \<leftarrow> wr (dlink s) u q;
       ul \<leftarrow> wr (ulink s) d q;
       let s = s\<lparr>dlink := dl, ulink := ul\<rparr>;
       l \<leftarrow> rd_llen s x;
       wr_llen s x (l + 1)
     }"

partial_function (option) hide_loop :: "int \<Rightarrow> int \<Rightarrow> xcc \<Rightarrow> xcc option" where
  "hide_loop p q s =
     (if q \<noteq> p then
        do {
          x \<leftarrow> rd (top' s) q;
          u \<leftarrow> rd (ulink s) q;
          d \<leftarrow> rd (dlink s) q;
          if x \<le> 0 then hide_loop p u s
          else do {
            c \<leftarrow> rd (color s) q;
            s \<leftarrow> (if c \<ge> 0 then unlink u d x s else Some s);
            hide_loop p (q + 1) s
          }
        }
      else Some s)"

definition hide :: "int \<Rightarrow> xcc \<Rightarrow> xcc option" where
  "hide p s = hide_loop p (p + 1) s"

partial_function (option) unhide_loop :: "XCCOptions \<Rightarrow> int \<Rightarrow> int \<Rightarrow> xcc \<Rightarrow> xcc option" where
  "unhide_loop opts p q s =
     (if q \<noteq> p then
        do {
          x \<leftarrow> rd (top' s) q;
          u \<leftarrow> rd (ulink s) q;
          d \<leftarrow> rd (dlink s) q;
          if x \<le> 0 then unhide_loop opts p d s
          else do {
            (d, s) \<leftarrow> (if Minimax opts \<and> d > cutoff s
                        then do { dl \<leftarrow> wr (dlink s) q x; Some (x, s\<lparr>dlink := dl\<rparr>) }
                        else Some (d, s));
            c \<leftarrow> rd (color s) q;
            s \<leftarrow> (if c \<ge> 0 then relink u d q x s else Some s);
            unhide_loop opts p (q - 1) s
          }
        }
      else Some s)"

definition unhide :: "XCCOptions \<Rightarrow> int \<Rightarrow> xcc \<Rightarrow> xcc option" where
  "unhide opts p s = unhide_loop opts p (p - 1) s"

partial_function (option) cover_loop :: "int \<Rightarrow> int \<Rightarrow> xcc \<Rightarrow> xcc option" where
  "cover_loop i p s =
     (if p \<noteq> i then
        do {
          s \<leftarrow> hide p s;
          p' \<leftarrow> rd (dlink s) p;
          cover_loop i p' s
        }
      else Some s)"

definition cover :: "int \<Rightarrow> xcc \<Rightarrow> xcc option" where
  "cover i s =
     do {
       p \<leftarrow> rd (dlink s) i;
       s \<leftarrow> cover_loop i p s;
       l \<leftarrow> rd (llink s) i;
       r \<leftarrow> rd (rlink s) i;
       rl \<leftarrow> wr (rlink s) l r;
       ll \<leftarrow> wr (llink s) r l;
       Some (s\<lparr>rlink := rl, llink := ll\<rparr>)
     }"

partial_function (option) prune_loop :: "int \<Rightarrow> int \<Rightarrow> xcc \<Rightarrow> xcc option" where
  "prune_loop i q s =
     (if q \<noteq> i then
        do {
          s \<leftarrow> (if q > cutoff s then
                  do {
                    u \<leftarrow> rd (ulink s) q;
                    d \<leftarrow> rd (dlink s) q;
                    unlink u d i s
                  }
                else Some s);
          q' \<leftarrow> rd (dlink s) q;
          prune_loop i q' s
        }
      else Some s)"

partial_function (option) uncover_loop :: "XCCOptions \<Rightarrow> int \<Rightarrow> int \<Rightarrow> xcc \<Rightarrow> xcc option" where
  "uncover_loop opts i p s =
     (if p \<noteq> i then
        do {
          s \<leftarrow> unhide opts p s;
          p' \<leftarrow> rd (ulink s) p;
          uncover_loop opts i p' s
        }
      else Some s)"

definition uncover :: "XCCOptions \<Rightarrow> int \<Rightarrow> xcc \<Rightarrow> xcc option" where
  "uncover opts i s =
     do {
       s \<leftarrow> (if Minimax opts then do { q \<leftarrow> rd (dlink s) i; prune_loop i q s }
              else Some s);
       l \<leftarrow> rd (llink s) i;
       r \<leftarrow> rd (rlink s) i;
       rl \<leftarrow> wr (rlink s) l i;
       ll \<leftarrow> wr (llink s) r i;
       let s = s\<lparr>rlink := rl, llink := ll\<rparr>;
       p \<leftarrow> rd (ulink s) i;
       uncover_loop opts i p s
     }"

partial_function (option) purify_loop :: "int \<Rightarrow> int \<Rightarrow> int \<Rightarrow> xcc \<Rightarrow> xcc option" where
  "purify_loop c i q s =
     (if q \<noteq> i then
        do {
          cq \<leftarrow> rd (color s) q;
          s \<leftarrow> (if cq = c then do { cl \<leftarrow> wr (color s) q (- 1); Some (s\<lparr>color := cl\<rparr>) }
                else hide q s);
          q' \<leftarrow> rd (dlink s) q;
          purify_loop c i q' s
        }
      else Some s)"

definition purify :: "int \<Rightarrow> xcc \<Rightarrow> xcc option" where
  "purify p s =
     do {
       c \<leftarrow> rd (color s) p;
       i \<leftarrow> rd (top' s) p;
       cl \<leftarrow> wr (color s) i c;
       let s = s\<lparr>color := cl\<rparr>;
       q \<leftarrow> rd (dlink s) i;
       purify_loop c i q s
     }"

partial_function (option) unpurify_loop ::
  "XCCOptions \<Rightarrow> int \<Rightarrow> int \<Rightarrow> int \<Rightarrow> xcc \<Rightarrow> xcc option" where
  "unpurify_loop opts c i q s =
     (if q \<noteq> i then
        do {
          cq \<leftarrow> rd (color s) q;
          s \<leftarrow> (if cq < 0 then do { cl \<leftarrow> wr (color s) q c; Some (s\<lparr>color := cl\<rparr>) }
                else unhide opts q s);
          q' \<leftarrow> rd (ulink s) q;
          s \<leftarrow> (if Minimax opts \<and> q' > cutoff s
                then do {
                  dl \<leftarrow> wr (dlink s) q' i;
                  ul \<leftarrow> wr (ulink s) i q';
                  Some (s\<lparr>dlink := dl, ulink := ul\<rparr>)
                }
                else Some s);
          unpurify_loop opts c i q' s
        }
      else Some s)"

definition unpurify :: "XCCOptions \<Rightarrow> int \<Rightarrow> xcc \<Rightarrow> xcc option" where
  "unpurify opts p s =
     do {
       c \<leftarrow> rd (color s) p;
       i \<leftarrow> rd (top' s) p;
       q \<leftarrow> rd (ulink s) i;
       unpurify_loop opts c i q s
     }"

definition commit :: "int \<Rightarrow> int \<Rightarrow> xcc \<Rightarrow> xcc option" where
  "commit p j s =
     do {
       c \<leftarrow> rd (color s) p;
       s \<leftarrow> (if c = 0 then cover j s else Some s);
       c \<leftarrow> rd (color s) p;
       if c > 0 then purify p s else Some s
     }"

definition uncommit :: "XCCOptions \<Rightarrow> int \<Rightarrow> int \<Rightarrow> xcc \<Rightarrow> xcc option" where
  "uncommit opts p j s =
     do {
       c \<leftarrow> rd (color s) p;
       s \<leftarrow> (if c = 0 then uncover opts j s else Some s);
       c \<leftarrow> rd (color s) p;
       if c > 0 then unpurify opts p s else Some s
     }"

subsection \<open>lvisit\<close>

partial_function (option) first_node :: "xcc \<Rightarrow> int \<Rightarrow> int option" where
  "first_node s p =
     do {
       t \<leftarrow> rd (top' s) (p - 1);
       if t > 0 then first_node s (p - 1) else Some p
     }"

partial_function (option) gather ::
  "xcc \<Rightarrow> int \<Rightarrow> (string \<times> string) list \<Rightarrow> string list \<Rightarrow>
   ((string \<times> string) list \<times> string list) option" where
  "gather s q sitemColor option =
     do {
       t \<leftarrow> rd (top' s) q;
       if t > 0 then
         do {
           nm \<leftarrow> rd (name s) t;
           c \<leftarrow> rd (color s) q;
           sitemColor \<leftarrow> (if c > 0 then do { cn \<leftarrow> rd (colors s) c; Some ((nm, cn) # sitemColor) }
                          else Some sitemColor);
           gather s (q + 1) sitemColor (option @ [nm])
         }
       else Some (sitemColor, option)
     }"

fun collect ::
  "xcc \<Rightarrow> int list \<Rightarrow> int \<Rightarrow> int \<Rightarrow> int \<Rightarrow> (string \<times> string) list \<Rightarrow> string list list \<Rightarrow>
   (int \<times> int \<times> (string \<times> string) list \<times> string list list) option" where
  "collect s [] i pMax lMax sitemColor options = Some (pMax, lMax, sitemColor, options)"
| "collect s (p # ps) i pMax lMax sitemColor options =
     do {
       let (pMax, lMax) = (if p > pMax then (p, i) else (pMax, lMax));
       p \<leftarrow> first_node s p;
       (sitemColor, option) \<leftarrow> gather s p sitemColor [];
       collect s ps (i + 1) pMax lMax sitemColor (options @ [option])
     }"

definition add_colors :: "(string \<times> string) list \<Rightarrow> string list list \<Rightarrow> string list list" where
  "add_colors sitemColor options =
     map (map (\<lambda>item. case map_of sitemColor item of
                         Some c \<Rightarrow> item @ '':'' @ c
                       | None \<Rightarrow> item)) options"

partial_function (option) find_spacer :: "XCCOptions \<Rightarrow> xcc \<Rightarrow> int \<Rightarrow> int option" where
  "find_spacer opts s pp =
     do {
       t \<leftarrow> rd (top' s) pp;
       if t > 0 then
         (if MinimaxSingle opts then find_spacer opts s (pp - 1)
          else find_spacer opts s (pp + 1))
       else Some pp
     }"

fun prune_state :: "int list \<Rightarrow> xcc \<Rightarrow> xcc option" where
  "prune_state [] s = Some s"
| "prune_state (p # ps) s =
     do {
       x \<leftarrow> rd (top' s) p;
       s \<leftarrow> prune_loop x p s;
       prune_state ps s
     }"

partial_function (option) unwind :: "XCCOptions \<Rightarrow> int \<Rightarrow> int \<Rightarrow> xcc \<Rightarrow> xcc option" where
  "unwind opts lMax k s =
     (if k \<ge> lMax then
        do {
          p \<leftarrow> rd (state s) k;
          i \<leftarrow> rd (top' s) p;
          s \<leftarrow> uncover opts i s;
          unwind opts lMax (k - 1) (s\<lparr>level := level s - 1\<rparr>)
        }
      else Some s)"

text \<open>The slice expression \<^verbatim>\<open>state[0:level]\<close>.\<close>

definition state_slice :: "xcc \<Rightarrow> int list option" where
  "state_slice s =
     (if 0 \<le> level s \<and> level s \<le> int (length (state s))
      then Some (take (nat (level s)) (state s)) else None)"

definition lvisit :: "XCCOptions \<Rightarrow> xcc \<Rightarrow> (string list list \<times> xcc) option" where
  "lvisit opts s =
     do {
       ps \<leftarrow> state_slice s;
       (pMax, lMax, sitemColor, options) \<leftarrow> collect s ps 0 0 0 [] [];
       let options = add_colors sitemColor options;
       s \<leftarrow> (if Minimax opts then
               do {
                 pp \<leftarrow> find_spacer opts s pMax;
                 if pp \<noteq> cutoff s then
                   do {
                     let s = s\<lparr>cutoff := pp\<rparr>;
                     ps \<leftarrow> state_slice s;
                     s \<leftarrow> prune_state ps s;
                     if MinimaxSingle opts then unwind opts lMax (level s - 1) s else Some s
                   }
                 else Some s
               }
             else Some s);
       Some (options, s)
     }"

subsection \<open>The driver, steps C2 to C8\<close>

datatype label = C2 | C5 | C6 | C7 | C8

datatype exit = Halted | Finished

definition stats_enter :: "bool \<Rightarrow> int \<Rightarrow> ExactCoverStats \<Rightarrow> ExactCoverStats option" where
  "stats_enter prog lev st =
     do {
       l \<leftarrow> rd (Levels st) lev;
       lv \<leftarrow> wr (Levels st) lev (l + 1);
       let st = st\<lparr>Levels := lv, Nodes := Nodes st + 1\<rparr>;
       Some (if prog then
               (let st = (if lev > sint (MaxLevel st) then st\<lparr>MaxLevel := word_of_int lev\<rparr> else st)
                in if sint (Nodes st) \<ge> sint (Theta st) then st\<lparr>Theta := Theta st + Delta st\<rparr>
                   else st)
             else st)
     }"

partial_function (option) commit_loop :: "int \<Rightarrow> int \<Rightarrow> xcc \<Rightarrow> xcc option" where
  "commit_loop x p s =
     (if p \<noteq> x then
        do {
          j \<leftarrow> rd (top' s) p;
          if j \<le> 0 then do { p' \<leftarrow> rd (ulink s) p; commit_loop x p' s }
          else do { s \<leftarrow> commit p j s; commit_loop x (p + 1) s }
        }
      else Some s)"

partial_function (option) uncommit_loop :: "XCCOptions \<Rightarrow> int \<Rightarrow> int \<Rightarrow> xcc \<Rightarrow> xcc option" where
  "uncommit_loop opts x p s =
     (if p \<noteq> x then
        do {
          j \<leftarrow> rd (top' s) p;
          if j \<le> 0 then do { p' \<leftarrow> rd (dlink s) p; uncommit_loop opts x p' s }
          else do { s \<leftarrow> uncommit opts p j s; uncommit_loop opts x (p - 1) s }
        }
      else Some s)"

partial_function (option) next_spacer :: "xcc \<Rightarrow> int \<Rightarrow> int option" where
  "next_spacer s x =
     do {
       t \<leftarrow> rd (top' s) x;
       if t > 0 then next_spacer s (x + 1) else Some x
     }"

definition exercise83 :: "xcc \<Rightarrow> xcc option" where
  "exercise83 s =
     do {
       x \<leftarrow> rd (state s) 0;
       x \<leftarrow> next_spacer s x;
       j \<leftarrow> rd (top' s) (x - 1);
       c \<leftarrow> (if j > n1' s then rd (color s) (x - 1) else Some 0);
       if j > n1' s \<and> c = 0 then cover j s else Some s
     }"

type_synonym config = "label \<times> int \<times> search"

text \<open>C3 (choose) and C4 (cover), on the tables.\<close>

definition choose_cover :: "xcc \<Rightarrow> (int \<times> xcc) option" where
  "choose_cover s =
     do {
       i \<leftarrow> mrv s;
       s \<leftarrow> cover i s;
       d \<leftarrow> rd (dlink s) i;
       st \<leftarrow> wr (state s) (level s) d;
       Some (i, s\<lparr>state := st\<rparr>)
     }"

text \<open>C2 (enter level), then C3 and C4 when there is no solution to visit.\<close>

definition enter_level ::
  "XCCOptions \<Rightarrow> (string list list \<Rightarrow> bool) \<Rightarrow> int \<Rightarrow> search \<Rightarrow> (config + exit \<times> search) option" where
  "enter_level opts visit i w =
     do {
       st \<leftarrow> (case stats w of None \<Rightarrow> Some None
              | Some st \<Rightarrow> map_option Some (stats_enter (progress w) (level (tab w)) st));
       let w = w\<lparr>stats := st\<rparr>;
       r \<leftarrow> rd (rlink (tab w)) 0;
       if r = 0 then
         do {
           let w = w\<lparr>stats := map_option (\<lambda>st. st\<lparr>Solutions := Solutions st + 1\<rparr>) (stats w)\<rparr>;
           (options, s) \<leftarrow> lvisit opts (tab w);
           let w = w\<lparr>tab := s, visited := visited w @ [options]\<rparr>;
           if \<not> visit options then Some (Inr (Halted, w)) else Some (Inl (C8, i, w))
         }
       else
         do {
           (i, s) \<leftarrow> choose_cover (tab w);
           Some (Inl (C5, i, w\<lparr>tab := s\<rparr>))
         }
     }"

text \<open>
  C5 (try the option of \<^verbatim>\<open>state[level]\<close>), on the tables: \<open>Some None\<close> when the list of
  \<open>i\<close> is exhausted (go to C7), the tables at the next level otherwise.
\<close>

definition try_option :: "int \<Rightarrow> xcc \<Rightarrow> xcc option option" where
  "try_option i s =
     do {
       x \<leftarrow> rd (state s) (level s);
       if x = i then Some None
       else
         do {
           s \<leftarrow> commit_loop x (x + 1) s;
           Some (Some (s\<lparr>level := level s + 1\<rparr>))
         }
     }"

definition try_level :: "int \<Rightarrow> search \<Rightarrow> (config + exit \<times> search) option" where
  "try_level i w =
     do {
       r \<leftarrow> try_option i (tab w);
       case r of
         None \<Rightarrow> Some (Inl (C7, i, w))
       | Some s \<Rightarrow> Some (Inl (C2, i, w\<lparr>tab := s\<rparr>))
     }"

text \<open>C6 (try again), on the tables.\<close>

definition next_option :: "XCCOptions \<Rightarrow> xcc \<Rightarrow> (int \<times> xcc) option" where
  "next_option opts s =
     do {
       x \<leftarrow> rd (state s) (level s);
       s \<leftarrow> uncommit_loop opts x (x - 1) s;
       s \<leftarrow> (if Exercise83 opts \<and> level s = 0 then exercise83 s else Some s);
       x \<leftarrow> rd (state s) (level s);
       i \<leftarrow> rd (top' s) x;
       d \<leftarrow> rd (dlink s) x;
       st \<leftarrow> wr (state s) (level s) d;
       Some (i, s\<lparr>state := st\<rparr>)
     }"

definition try_again :: "XCCOptions \<Rightarrow> int \<Rightarrow> search \<Rightarrow> (config + exit \<times> search) option" where
  "try_again opts i w =
     do {
       let w = w\<lparr>stats := map_option (\<lambda>st. st\<lparr>Nodes := Nodes st + 1\<rparr>) (stats w)\<rparr>;
       (i, s) \<leftarrow> next_option opts (tab w);
       Some (Inl (C5, i, w\<lparr>tab := s\<rparr>))
     }"

text \<open>C7 (backtrack).\<close>

definition backtrack :: "XCCOptions \<Rightarrow> int \<Rightarrow> search \<Rightarrow> (config + exit \<times> search) option" where
  "backtrack opts i w =
     do {
       s \<leftarrow> uncover opts i (tab w);
       Some (Inl (C8, i, w\<lparr>tab := s\<rparr>))
     }"

text \<open>C8 (leave level).\<close>

definition leave_level :: "int \<Rightarrow> search \<Rightarrow> (config + exit \<times> search) option" where
  "leave_level i w =
     (if level (tab w) = 0 then Some (Inr (Finished, w))
      else Some (Inl (C6, i, w\<lparr>tab := (tab w)\<lparr>level := level (tab w) - 1\<rparr>\<rparr>)))"

text \<open>One transition of the driver: the code from one label to the next \<^verbatim>\<open>goto\<close> or return.\<close>

definition step ::
  "XCCOptions \<Rightarrow> (string list list \<Rightarrow> bool) \<Rightarrow> config \<Rightarrow> (config + exit \<times> search) option" where
  "step opts visit cfg =
     (case cfg of (l, i, w) \<Rightarrow>
       (case l of
          C2 \<Rightarrow> enter_level opts visit i w
        | C5 \<Rightarrow> try_level i w
        | C6 \<Rightarrow> try_again opts i w
        | C7 \<Rightarrow> backtrack opts i w
        | C8 \<Rightarrow> leave_level i w))"

partial_function (option) run ::
  "XCCOptions \<Rightarrow> (string list list \<Rightarrow> bool) \<Rightarrow> config \<Rightarrow> (exit \<times> search) option" where
  "run opts visit cfg =
     do {
       r \<leftarrow> step opts visit cfg;
       case r of Inl cfg' \<Rightarrow> run opts visit cfg' | Inr e \<Rightarrow> Some e
     }"

text \<open>
  The result of \<^verbatim>\<open>XCC\<close>: \<open>Inl\<close> is the error returned by \<^verbatim>\<open>validate\<close>; \<open>Inr\<close>
  is a return of \<^verbatim>\<open>nil\<close>, with the return statement taken (\<open>Halted\<close> in C2 after
  the visitor answered false, \<open>Finished\<close> in C8 at level 0) and the variables then.
\<close>

definition start ::
  "string list \<Rightarrow> string list list \<Rightarrow> string list \<Rightarrow> ExactCoverStats option \<Rightarrow> config option" where
  "start items options secondary st =
     do {
       s \<leftarrow> initialize items options secondary;
       Some (C2, 0, \<lparr>tab = s,
                     stats = map_option (init_stats (n' s)) st,
                     progress = (case st of None \<Rightarrow> False | Some t \<Rightarrow> Progress t),
                     visited = []\<rparr>)
     }"

definition XCC ::
  "string list \<Rightarrow> string list list \<Rightarrow> string list \<Rightarrow> ExactCoverStats option \<Rightarrow>
   XCCOptions option \<Rightarrow> (string list list \<Rightarrow> bool) \<Rightarrow> (error + exit \<times> search) option" where
  "XCC items options secondary st xccOptions visit =
     (let opts = (case xccOptions of
                    None \<Rightarrow> \<lparr>Minimax = False, MinimaxSingle = False, Exercise83 = False\<rparr>
                  | Some opts \<Rightarrow> opts)
      in case validate items options secondary of
           Some err \<Rightarrow> Some (Inl err)
         | None \<Rightarrow>
             do {
               cfg \<leftarrow> start items options secondary st;
               r \<leftarrow> run opts visit cfg;
               Some (Inr r)
             })"

text \<open>
  The configuration of the driver after \<open>k\<close> transitions from \<open>cfg\<close> (\<open>None\<close> when it
  returned or panicked before).
\<close>

fun nsteps ::
  "nat \<Rightarrow> XCCOptions \<Rightarrow> (string list list \<Rightarrow> bool) \<Rightarrow> config \<Rightarrow> config option" where
  "nsteps 0 opts visit cfg = Some cfg"
| "nsteps (Suc k) opts visit cfg =
     (case step opts visit cfg of
        Some (Inl cfg') \<Rightarrow> nsteps k opts visit cfg'
      | _ \<Rightarrow> None)"

subsection \<open>Code equations of the loops\<close>

declare find_tail.simps [code]
  mrv_loop.simps [code]
  hide_loop.simps [code]
  unhide_loop.simps [code]
  cover_loop.simps [code]
  prune_loop.simps [code]
  uncover_loop.simps [code]
  purify_loop.simps [code]
  unpurify_loop.simps [code]
  first_node.simps [code]
  gather.simps [code]
  find_spacer.simps [code]
  unwind.simps [code]
  commit_loop.simps [code]
  uncommit_loop.simps [code]
  next_spacer.simps [code]
  run.simps [code]

section \<open>Notions used in the statements\<close>

text \<open>The working arrays of the search.\<close>

definition arrays :: "xcc \<Rightarrow> int list \<times> int list \<times> int list \<times> int list \<times> int list \<times> int list" where
  "arrays s = (llink s, rlink s, top' s, ulink s, dlink s, color s)"

definition off :: XCCOptions where
  "off = \<lparr>Minimax = False, MinimaxSingle = False, Exercise83 = False\<rparr>"

definition minimax :: XCCOptions where
  "minimax = \<lparr>Minimax = True, MinimaxSingle = False, Exercise83 = False\<rparr>"

definition minimax_single :: XCCOptions where
  "minimax_single = \<lparr>Minimax = True, MinimaxSingle = True, Exercise83 = False\<rparr>"

text \<open>The toy problem of the test file (7.2.2.1-49) and its expected solution.\<close>

definition xccItems :: "string list" where
  "xccItems = [''p'', ''q'', ''r'']"

definition xccSItems :: "string list" where
  "xccSItems = [''x'', ''y'']"

definition xccOptions :: "string list list" where
  "xccOptions =
     [[''p'', ''q'', ''x'', ''y:A''], [''p'', ''r'', ''x:A'', ''y''], [''p'', ''x:B''],
      [''q'', ''x:A''], [''r'', ''y:B'']]"

definition xccExpected :: "string list list" where
  "xccExpected = [[''q'', ''x:A''], [''p'', ''r'', ''x:A'', ''y'']]"

text \<open>
  The inputs that the specification calls well-formed: the primary list is not empty,
  no name is declared twice, and every token of every option, cut at its first colon,
  is a declared name.
\<close>

definition declared :: "string list \<Rightarrow> string list \<Rightarrow> string \<Rightarrow> bool" where
  "declared items secondary token = (item_part token \<in> set items \<union> set secondary)"

definition well_formed :: "string list \<Rightarrow> string list list \<Rightarrow> string list \<Rightarrow> bool" where
  "well_formed items options secondary =
     (items \<noteq> [] \<and> distinct items \<and> distinct secondary \<and> set items \<inter> set secondary = {} \<and>
      list_all (list_all (declared items secondary)) options)"

text \<open>The options a call runs with: all off when the pointer is nil.\<close>

definition options_of :: "XCCOptions option \<Rightarrow> XCCOptions" where
  "options_of xo = (case xo of None \<Rightarrow> off | Some opts \<Rightarrow> opts)"

text \<open>
  The nodes of the search tree entered in the first \<open>k\<close> transitions from \<open>cfg\<close>: one for
  each transition taken at C2 (enter level) and one for each taken at C6 (try again).
\<close>

fun entered ::
  "nat \<Rightarrow> XCCOptions \<Rightarrow> (string list list \<Rightarrow> bool) \<Rightarrow> config \<Rightarrow> nat" where
  "entered 0 opts visit cfg = 0"
| "entered (Suc k) opts visit cfg =
     (if fst cfg = C2 \<or> fst cfg = C6 then 1 else 0) +
     (case step opts visit cfg of
        Some (Inl cfg') \<Rightarrow> entered k opts visit cfg'
      | _ \<Rightarrow> 0)"

text \<open>The driver started at \<open>cfg\<close> returns \<open>r\<close> in its transition number \<open>k + 1\<close>.\<close>

definition returns_after ::
  "nat \<Rightarrow> XCCOptions \<Rightarrow> (string list list \<Rightarrow> bool) \<Rightarrow> config \<Rightarrow> exit \<times> search \<Rightarrow> bool" where
  "returns_after k opts visit cfg r =
     (case nsteps k opts visit cfg of
        Some cfg' \<Rightarrow> step opts visit cfg' = Some (Inr r)
      | None \<Rightarrow> False)"

text \<open>The variables a transition leaves.\<close>

definition after :: "config + exit \<times> search \<Rightarrow> search" where
  "after r = (case r of Inl (l, i, w) \<Rightarrow> w | Inr (e, w) \<Rightarrow> w)"

section \<open>Validation\<close>

lemma item_part_no_colon: "\<not> has_colon item \<Longrightarrow> item_part item = item"
  by (auto simp: has_colon_def item_part_def takeWhile_eq_all_conv)

lemma validate_items_Inr:
  "(\<exists>m'. validate_items m xs = Inr m') = (distinct xs \<and> (\<forall>x\<in>set xs. \<not> m x))"
  by (induction xs arbitrary: m) auto

lemma validate_items_map:
  "validate_items m xs = Inr m' \<Longrightarrow> m' = (\<lambda>x. m x \<or> x \<in> set xs)"
proof (induction xs arbitrary: m)
  case Nil
  then show ?case by simp
next
  case (Cons a xs)
  from Cons.prems have "validate_items (m(a := True)) xs = Inr m'" by (simp split: if_splits)
  from Cons.IH[OF this] show ?case by (auto simp: fun_eq_iff)
qed

lemma validate_secondary_Inr:
  "(\<exists>m'. validate_secondary mi m xs = Inr m') = (distinct xs \<and> (\<forall>x\<in>set xs. \<not> mi x \<and> \<not> m x))"
  by (induction xs arbitrary: m) auto

lemma validate_secondary_map:
  "validate_secondary mi m xs = Inr m' \<Longrightarrow> m' = (\<lambda>x. m x \<or> x \<in> set xs)"
proof (induction xs arbitrary: m)
  case Nil
  then show ?case by simp
next
  case (Cons a xs)
  from Cons.prems have "validate_secondary mi (m(a := True)) xs = Inr m'" by (simp split: if_splits)
  from Cons.IH[OF this] show ?case by (auto simp: fun_eq_iff)
qed

lemma validate_option_None:
  "(validate_option mi ms opt xs = None) = (\<forall>t\<in>set xs. mi (item_part t) \<or> ms (item_part t))"
  by (induction xs) (auto simp: Let_def item_part_no_colon)

lemma validate_options_None:
  "(validate_options mi ms os = None) = (\<forall>opt\<in>set os. \<forall>t\<in>set opt. mi (item_part t) \<or> ms (item_part t))"
proof (induction os)
  case Nil
  then show ?case by simp
next
  case (Cons a os)
  show ?case
    using Cons validate_option_None[of mi ms a a]
    by (cases "validate_option mi ms a a") auto
qed

lemma validate_None: "(validate items options secondary = None) = well_formed items options secondary"
proof (cases "items = []")
  case True
  then show ?thesis by (simp add: validate_def well_formed_def)
next
  case ne: False
  show ?thesis
  proof (cases "validate_items (\<lambda>_. False) items")
    case (Inl e)
    with validate_items_Inr[of "\<lambda>_. False" items] have "\<not> distinct items" by auto
    with Inl ne show ?thesis by (simp add: validate_def well_formed_def)
  next
    case (Inr mi)
    with validate_items_Inr[of "\<lambda>_. False" items] have d: "distinct items" by auto
    from Inr have mi: "mi = (\<lambda>x. x \<in> set items)" by (auto dest: validate_items_map)
    show ?thesis
    proof (cases "validate_secondary mi (\<lambda>_. False) secondary")
      case (Inl e)
      with validate_secondary_Inr[of mi "\<lambda>_. False" secondary]
      have "\<not> (distinct secondary \<and> set items \<inter> set secondary = {})" by (auto simp: mi)
      with Inl Inr ne show ?thesis by (auto simp add: validate_def well_formed_def)
    next
      case r2: (Inr ms)
      with validate_secondary_Inr[of mi "\<lambda>_. False" secondary]
      have d2: "distinct secondary" "set items \<inter> set secondary = {}" by (auto simp: mi)
      from r2 have ms: "ms = (\<lambda>x. x \<in> set secondary)" by (auto dest: validate_secondary_map)
      show ?thesis using ne Inr r2 d d2
        by (auto simp: validate_def well_formed_def validate_options_None mi ms list_all_iff declared_def)
    qed
  qed
qed

text \<open>
  Claim C8.  \<^verbatim>\<open>XCC\<close> returns an error exactly when the input is not well-formed (empty
  primary list, a name declared twice among the primary and secondary items, or an option
  token that, cut at its colon, is no declared name); the error is returned before the
  tables are built and before the visitor can be called (the result \<open>Inl\<close> carries no
  tables and no visit).  For a well-formed input the call is the search itself:
  \<^verbatim>\<open>initialize\<close>, then the driver from C2.
\<close>

theorem validation_errors:
  "((\<exists>e. XCC items options secondary st xo visit = Some (Inl e)) = (\<not> well_formed items options secondary)) \<and>
   (well_formed items options secondary \<longrightarrow>
      XCC items options secondary st xo visit =
        start items options secondary st \<bind>
          (\<lambda>cfg. run (case xo of
                           None \<Rightarrow> \<lparr>Minimax = False, MinimaxSingle = False, Exercise83 = False\<rparr>
                         | Some opts \<Rightarrow> opts) visit cfg \<bind> (\<lambda>r. Some (Inr r))))"
proof (cases "validate items options secondary")
  case None
  then have wf: "well_formed items options secondary" by (simp add: validate_None)
  have "XCC items options secondary st xo visit \<noteq> Some (Inl e)" for e
    using None by (auto simp: XCC_def Let_def bind_eq_Some_conv)
  with None wf show ?thesis by (auto simp: XCC_def Let_def)
next
  case (Some e)
  then have "\<not> well_formed items options secondary" using validate_None[of items options secondary] by auto
  with Some show ?thesis by (auto simp: XCC_def Let_def)
qed

theorem validation_errors_witness:
  "(\<exists>e. XCC [''a''] [[''a'', ''q'']] [] None None (\<lambda>_. True) = Some (Inl e)) \<and>
   \<not> well_formed [''a''] [[''a'', ''q'']] [] \<and>
   well_formed [''a'', ''b''] [[''a'', ''x:A''], [''b'']] [''x''] \<and>
   (\<exists>r. XCC [''a'', ''b''] [[''a'', ''x:A''], [''b'']] [''x''] None None (\<lambda>_. True) = Some (Inr r))"
proof -
  have n: "\<not> well_formed [''a''] [[''a'', ''q'']] []" by code_simp
  have w: "well_formed [''a'', ''b''] [[''a'', ''x:A''], [''b'']] [''x'']" by code_simp
  have r: "XCC [''a'', ''b''] [[''a'', ''x:A''], [''b'']] [''x''] None None (\<lambda>_. True) \<noteq> None" by code_simp
  from validation_errors[of "[''a'']" "[[''a'', ''q'']]" "[]" None None "\<lambda>_. True"] n
  have 1: "\<exists>e. XCC [''a''] [[''a'', ''q'']] [] None None (\<lambda>_. True) = Some (Inl e)" by blast
  from validation_errors[of "[''a'', ''b'']" "[[''a'', ''x:A''], [''b'']]" "[''x'']" None None "\<lambda>_. True"] w
  have "\<not> (\<exists>e. XCC [''a'', ''b''] [[''a'', ''x:A''], [''b'']] [''x''] None None (\<lambda>_. True) = Some (Inl e))" by blast
  with r have 2: "\<exists>r. XCC [''a'', ''b''] [[''a'', ''x:A''], [''b'']] [''x''] None None (\<lambda>_. True) = Some (Inr r)"
    by (cases "XCC [''a'', ''b''] [[''a'', ''x:A''], [''b'']] [''x''] None None (\<lambda>_. True)") (auto intro: sum.exhaust)
  from 1 2 n w show ?thesis by blast
qed

section \<open>The statistics counters\<close>

lemma stats_enter_counts:
  "stats_enter p l st = Some st' \<Longrightarrow> Solutions st' = Solutions st \<and> Nodes st' = Nodes st + 1"
  by (auto simp: stats_enter_def Let_def bind_eq_Some_conv split: if_splits)

lemma enter_level_counts:
  assumes "enter_level opts visit i w = Some r" "stats w = Some st"
  shows "\<exists>st'. stats (after r) = Some st' \<and>
           Solutions st' + word_of_nat (length (visited w)) =
             Solutions st + word_of_nat (length (visited (after r))) \<and>
           Nodes st' = Nodes st + 1"
proof -
  from assms obtain st1 where e: "stats_enter (progress w) (level (tab w)) st = Some st1"
    by (auto simp: enter_level_def bind_eq_Some_conv)
  note c = stats_enter_counts[OF e]
  show ?thesis
    using assms e c
    by (auto simp: enter_level_def bind_eq_Some_conv after_def Let_def
        split: if_splits prod.splits)
qed

lemma step_counts:
  assumes "step opts visit (l, i, w) = Some r" "stats w = Some st"
  shows "\<exists>st'. stats (after r) = Some st' \<and>
           Solutions st' + word_of_nat (length (visited w)) =
             Solutions st + word_of_nat (length (visited (after r))) \<and>
           Nodes st' = Nodes st + (if l = C2 \<or> l = C6 then 1 else 0)"
proof (cases l)
  case C2
  with assms enter_level_counts[of opts visit i w r st] show ?thesis by (simp add: step_def)
next
  case C5
  then show ?thesis using assms
    by (auto simp: step_def try_level_def bind_eq_Some_conv after_def split: option.splits)
next
  case C6
  then show ?thesis using assms
    by (auto simp: step_def try_again_def bind_eq_Some_conv after_def Let_def split: prod.splits)
next
  case C7
  then show ?thesis using assms
    by (auto simp: step_def backtrack_def bind_eq_Some_conv after_def)
next
  case C8
  then show ?thesis using assms
    by (auto simp: step_def leave_level_def after_def split: if_splits)
qed

lemma run_counts:
  "run opts visit cfg = Some r \<Longrightarrow> stats (snd (snd cfg)) = Some st \<Longrightarrow>
   \<exists>k st'. returns_after k opts visit cfg r \<and> stats (snd r) = Some st' \<and>
     Solutions st' + word_of_nat (length (visited (snd (snd cfg)))) =
       Solutions st + word_of_nat (length (visited (snd r))) \<and>
     Nodes st' = Nodes st + word_of_nat (entered (Suc k) opts visit cfg)"
proof (induction opts visit cfg r arbitrary: st rule: run.raw_induct[rotated 1, consumes 1])
  case (1 run' opts visit cfg r)
  obtain l i w where cfg: "cfg = (l, i, w)" by (cases cfg) auto
  from 1(2) obtain r1 where r1: "step opts visit cfg = Some r1"
    and rest: "(case r1 of Inl cfg' \<Rightarrow> run' opts visit cfg' | Inr e \<Rightarrow> Some e) = Some r"
    by (auto simp: bind_eq_Some_conv)
  from 1(3) cfg have st: "stats w = Some st" by simp
  from step_counts[OF r1[unfolded cfg] st] obtain st1 where
    s1: "stats (after r1) = Some st1"
    and so1: "Solutions st1 + word_of_nat (length (visited w)) =
              Solutions st + word_of_nat (length (visited (after r1)))"
    and no1: "Nodes st1 = Nodes st + (if l = C2 \<or> l = C6 then 1 else 0)"
    by blast
  show ?case
  proof (cases r1)
    case (Inl cfg')
    obtain l' i' w' where cfg': "cfg' = (l', i', w')" by (cases cfg') auto
    from Inl rest have run': "run' opts visit cfg' = Some r" by simp
    from s1 Inl cfg' have st': "stats (snd (snd cfg')) = Some st1" by (simp add: after_def)
    from 1(1)[OF run' st'] obtain k st2 where
      ra: "returns_after k opts visit cfg' r" and s2: "stats (snd r) = Some st2"
      and so2: "Solutions st2 + word_of_nat (length (visited (snd (snd cfg')))) =
                Solutions st1 + word_of_nat (length (visited (snd r)))"
      and no2: "Nodes st2 = Nodes st1 + word_of_nat (entered (Suc k) opts visit cfg')"
      by blast
    have "returns_after (Suc k) opts visit cfg r"
      using ra r1 Inl by (simp add: returns_after_def)
    moreover have "Solutions st2 + word_of_nat (length (visited (snd (snd cfg)))) =
                   Solutions st + word_of_nat (length (visited (snd r)))"
    proof -
      from so1 Inl cfg' have "Solutions st1 = Solutions st + word_of_nat (length (visited w')) -
          word_of_nat (length (visited w))"
        by (simp add: after_def algebra_simps)
      with so2 cfg' cfg show ?thesis by (simp add: algebra_simps)
    qed
    moreover have "Nodes st2 = Nodes st + word_of_nat (entered (Suc (Suc k)) opts visit cfg)"
      using no1 no2 r1 Inl cfg by simp
    ultimately show ?thesis using s2 by blast
  next
    case (Inr e)
    with rest have r: "r = e" by simp
    have "returns_after 0 opts visit cfg r"
      using r1 Inr r by (simp add: returns_after_def)
    moreover have "stats (snd r) = Some st1" using s1 Inr r by (simp add: after_def split: prod.splits)
    moreover have "Solutions st1 + word_of_nat (length (visited (snd (snd cfg)))) =
                   Solutions st + word_of_nat (length (visited (snd r)))"
      using so1 Inr r cfg by (simp add: after_def split: prod.splits)
    moreover have "Nodes st1 = Nodes st + word_of_nat (entered (Suc 0) opts visit cfg)"
      using no1 r1 Inr cfg by simp
    ultimately show ?thesis by blast
  qed
qed

lemma start_stats:
  assumes "start items options secondary (Some st) = Some (l, i, w)"
  shows "\<exists>st0. stats w = Some st0 \<and> Solutions st0 = Solutions st \<and> Nodes st0 = Nodes st \<and>
           visited w = []"
  using assms by (auto simp: start_def bind_eq_Some_conv init_stats_def)

lemma sint_add_nat:
  fixes a :: "64 word"
  assumes "sint a + int n < 2 ^ 63"
  shows "sint (a + word_of_nat n) = sint a + int n"
proof -
  have "a + word_of_nat n = word_of_int (sint a + int n)" by simp
  then have "sint (a + word_of_nat n) = signed_take_bit 63 (sint a + int n)"
    by (simp only: sint_sbintrunc') simp
  moreover have "- (2 ^ 63) \<le> sint a" using sint_ge[of a] by simp
  then have "- (2 ^ 63) \<le> sint a + int n" by simp
  ultimately show ?thesis using assms by (simp add: signed_take_bit_int_eq_self)
qed

text \<open>
  Claim C10 fails as stated: the counters are machine integers that the caller supplies,
  and \<^verbatim>\<open>stats.Solutions++\<close> wraps.  On the toy problem, with a structure whose
  \<^verbatim>\<open>Solutions\<close> is the largest \<^verbatim>\<open>int\<close> and whose \<^verbatim>\<open>Nodes\<close> is 100, the call returns
  after one visit with \<^verbatim>\<open>Solutions\<close> at the smallest \<^verbatim>\<open>int\<close>, not at its value before
  the call plus one; \<^verbatim>\<open>Nodes\<close> ends at 107, seven nodes having been entered (four
  transitions at C2 and three at C6).
\<close>

theorem stats_counter_wraps:
  "case XCC xccItems xccOptions xccSItems
          (Some \<lparr>Solutions = 2 ^ 63 - 1, Nodes = 100, Levels = [], MaxLevel = 0, Theta = 0,
                 Delta = 0, Debug = False, Progress = False, Verbosity = 0\<rparr>) None (\<lambda>_. True) of
     Some (Inr (e, w)) \<Rightarrow>
       e = Finished \<and> length (visited w) = 1 \<and>
       map_option (\<lambda>st. sint (Solutions st)) (stats w) = Some (- (2 ^ 63)) \<and>
       sint (2 ^ 63 - 1 :: 64 word) + 1 = 2 ^ 63 \<and>
       map_option (\<lambda>st. sint (Nodes st)) (stats w) = Some 107
   | _ \<Rightarrow> False"
  by code_simp

text \<open>
  Claim C10, amended.  With a statistics structure \<open>st\<close> supplied, nothing resets the
  counters, and a call that returns (in its transition number \<open>k + 1\<close>) leaves
  \<^verbatim>\<open>Solutions\<close> at its value before the call plus the number of calls of the visitor, and
  \<^verbatim>\<open>Nodes\<close> at its value before the call plus the number of nodes entered (one for each
  transition at C2 and one for each at C6), both in the wrapping arithmetic of 64-bit
  integers.  The sums are the ones of the integers whenever they do not exceed the largest
  \<^verbatim>\<open>int\<close>.  So a structure used again for a further call accumulates the counts of all
  the calls, as long as the counters do not overflow.
\<close>

theorem stats_accumulate:
  assumes "XCC items options secondary (Some st) xo visit = Some (Inr (e, w))"
  shows "\<exists>cfg k st'.
           start items options secondary (Some st) = Some cfg \<and>
           returns_after k (options_of xo) visit cfg (e, w) \<and>
           stats w = Some st' \<and>
           Solutions st' = Solutions st + word_of_nat (length (visited w)) \<and>
           Nodes st' = Nodes st + word_of_nat (entered (Suc k) (options_of xo) visit cfg) \<and>
           (sint (Solutions st) + int (length (visited w)) < 2 ^ 63 \<longrightarrow>
              sint (Solutions st') = sint (Solutions st) + int (length (visited w))) \<and>
           (sint (Nodes st) + int (entered (Suc k) (options_of xo) visit cfg) < 2 ^ 63 \<longrightarrow>
              sint (Nodes st') =
                sint (Nodes st) + int (entered (Suc k) (options_of xo) visit cfg))"
proof -
  have o: "options_of xo =
     (case xo of None \<Rightarrow> \<lparr>Minimax = False, MinimaxSingle = False, Exercise83 = False\<rparr>
      | Some opts \<Rightarrow> opts)"
    by (cases xo) (simp_all add: options_of_def off_def)
  from assms have v: "validate items options secondary = None"
    by (cases "validate items options secondary") (auto simp: XCC_def Let_def)
  with assms obtain cfg where cfg: "start items options secondary (Some st) = Some cfg"
    and run: "run (options_of xo) visit cfg = Some (e, w)"
    by (auto simp: XCC_def Let_def bind_eq_Some_conv o)
  obtain l i w0 where c: "cfg = (l, i, w0)" by (cases cfg) auto
  from start_stats[OF cfg[unfolded c]] obtain st0 where
    st0: "stats w0 = Some st0" "Solutions st0 = Solutions st" "Nodes st0 = Nodes st"
      "visited w0 = []"
    by blast
  from st0 c have "stats (snd (snd cfg)) = Some st0" by simp
  from run_counts[OF run this] c st0 obtain k st' where
    ra: "returns_after k (options_of xo) visit cfg (e, w)" and s: "stats w = Some st'"
    and so: "Solutions st' = Solutions st + word_of_nat (length (visited w))"
    and no: "Nodes st' = Nodes st + word_of_nat (entered (Suc k) (options_of xo) visit cfg)"
    by auto
  from so have "sint (Solutions st) + int (length (visited w)) < 2 ^ 63 \<longrightarrow>
      sint (Solutions st') = sint (Solutions st) + int (length (visited w))"
    by (simp add: sint_add_nat)
  moreover from no have
    "sint (Nodes st) + int (entered (Suc k) (options_of xo) visit cfg) < 2 ^ 63 \<longrightarrow>
      sint (Nodes st') = sint (Nodes st) + int (entered (Suc k) (options_of xo) visit cfg)"
    by (simp add: sint_add_nat del: entered.simps)
  ultimately show ?thesis using cfg ra s so no by blast
qed

theorem stats_accumulate_witness:
  "\<exists>e w st' cfg k.
     XCC xccItems xccOptions xccSItems
       (Some \<lparr>Solutions = 5, Nodes = 100, Levels = [], MaxLevel = 0, Theta = 0, Delta = 0,
              Debug = False, Progress = False, Verbosity = 0\<rparr>) None (\<lambda>_. True) =
       Some (Inr (e, w)) \<and>
     stats w = Some st' \<and> Solutions st' = 6 \<and> sint (Solutions st') = 6 \<and> Nodes st' = 107 \<and>
     returns_after k off (\<lambda>_. True) cfg (e, w) \<and>
     (word_of_nat (entered (Suc k) off (\<lambda>_. True) cfg) :: 64 word) = 7"
proof -
  let ?st = "\<lparr>Solutions = 5, Nodes = 100, Levels = [], MaxLevel = 0, Theta = 0, Delta = 0,
               Debug = False, Progress = False, Verbosity = 0 :: 64 word\<rparr>"
  have "case XCC xccItems xccOptions xccSItems (Some ?st) None (\<lambda>_. True) of
          Some (Inr (e, w)) \<Rightarrow>
            length (visited w) = 1 \<and> map_option Nodes (stats w) = Some 107
        | _ \<Rightarrow> False"
    by code_simp
  then obtain e w where
    r: "XCC xccItems xccOptions xccSItems (Some ?st) None (\<lambda>_. True) = Some (Inr (e, w))"
    and v: "length (visited w) = 1" and n: "map_option Nodes (stats w) = Some 107"
    by (auto split: option.splits sum.splits)
  from stats_accumulate[OF r] obtain cfg k st' where
    ra: "returns_after k (options_of None) (\<lambda>_. True) cfg (e, w)"
    and s: "stats w = Some st'"
    and so: "Solutions st' = Solutions ?st + word_of_nat (length (visited w))"
    and no: "Nodes st' = Nodes ?st + word_of_nat (entered (Suc k) (options_of None) (\<lambda>_. True) cfg)"
    by blast
  have oo: "options_of None = off" by (simp add: options_of_def)
  from so v have "Solutions st' = 6" by simp
  moreover then have "sint (Solutions st') = 6" by simp
  moreover from n s have n7: "Nodes st' = 107" by simp
  moreover from no n7 have "(word_of_nat (entered (Suc k) off (\<lambda>_. True) cfg) :: 64 word) = 7"
    unfolding oo by (simp del: entered.simps)
  ultimately show ?thesis using r s ra unfolding oo by blast
qed

section \<open>The cutoff set by initialize\<close>

lemma wr_length: "wr xs k v = Some ys \<Longrightarrow> length ys = length xs"
  by (auto simp: wr_def split: if_splits)

lemma wr_llen_top: "wr_llen s x v = Some s' \<Longrightarrow> length (top' s') = length (top' s)"
  by (auto simp: wr_llen_def bind_eq_Some_conv wr_length split: if_splits)

lemma init_items_top: "init_items xs j s = Some s' \<Longrightarrow> top' s' = top' s"
  by (induction xs j s rule: init_items.induct) (auto simp: bind_eq_Some_conv Let_def)

lemma init_lists_top: "init_lists s = Some s' \<Longrightarrow> top' s' = top' s"
  by (auto simp: init_lists_def bind_eq_Some_conv)

lemma init_empty_top: "init_empty k i s = Some s' \<Longrightarrow> length (top' s') = length (top' s)"
proof (induction k i s rule: init_empty.induct)
  case (1 i s)
  then show ?case by simp
next
  case (2 k i s)
  from 2(2) obtain s1 ul dl where s1: "wr_llen s i 0 = Some s1"
    and ul: "wr (ulink s1) i i = Some ul" and dl: "wr (dlink s1) i i = Some dl"
    and r: "init_empty k (i + 1) (s1\<lparr>ulink := ul, dlink := dl\<rparr>) = Some s'"
    by (auto simp: bind_eq_Some_conv)
  from 2(1)[OF s1 ul dl r] wr_llen_top[OF s1] show ?case by simp
qed

lemma init_node_top: "init_node item x s = Some s' \<Longrightarrow> length (top' s') = length (top' s)"
  by (auto simp: init_node_def bind_eq_Some_conv Let_def wr_length split: if_splits prod.splits dest!: wr_llen_top)

lemma init_option_top: "init_option xs x s = Some (x', s') \<Longrightarrow> length (top' s') = length (top' s)"
  by (induction xs x s rule: init_option.induct) (auto simp: bind_eq_Some_conv dest: init_node_top)

lemma init_options_top:
  "init_options os x sp spx s = Some s' \<Longrightarrow> length (top' s') = length (top' s)"
proof (induction os arbitrary: x sp spx s)
  case Nil
  then show ?case by simp
next
  case (Cons option rest)
  from Cons.prems obtain x1 s1 dl ul tp where
    o: "init_option option x s = Some (x1, s1)"
    and tp: "wr (top' s1) (x1 + 1) (sp - 1) = Some tp"
    and r: "init_options rest (x1 + 1) (sp - 1) (x1 + 1) (s1\<lparr>dlink := dl, ulink := ul, top' := tp\<rparr>) = Some s'"
    by (auto simp: bind_eq_Some_conv Let_def)
  from Cons.IH[OF r] wr_length[OF tp] init_option_top[OF o] show ?case by simp
qed

text \<open>
  Claim C9 says that the cutoff set at the end of \<^verbatim>\<open>initialize\<close> exceeds every node
  index whatever the size of the table.  The code assigns the constant
  \<^verbatim>\<open>math.MaxInt16\<close>: the cutoff is 32767 for every input, while the table holds
  \<open>n + 2 + m + \<Sum>|option|\<close> cells, so a table of more than 32768 cells has cells past
  the cutoff.
\<close>

theorem initialize_cutoff:
  assumes "initialize items options secondary = Some s"
  shows "cutoff s = 32767 \<and>
         int (length (top' s)) =
           int (length items) + int (length secondary) + 2 + int (length options) +
           sum_list (map (\<lambda>option. int (length option)) options)"
proof -
  have nn: "0 \<le> sum_list (map (\<lambda>option. int (length option)) options)"
    by (rule sum_list_nonneg) auto
  from assms show ?thesis
    by (auto simp: initialize_def Let_def bind_eq_Some_conv MaxInt16_def nn
        dest!: init_options_top init_empty_top init_lists_top init_items_top dest: wr_length)
qed


theorem initialize_cutoff_witness:
  "\<exists>s. initialize [''a'', ''b''] [[''a'', ''b''], [''a''], [''b'']] [] = Some s \<and> cutoff s = 32767 \<and>
       int (length (top' s)) = 11"
proof -
  have "initialize [''a'', ''b''] [[''a'', ''b''], [''a''], [''b'']] [] \<noteq> None"
    by code_simp
  then obtain s where s: "initialize [''a'', ''b''] [[''a'', ''b''], [''a''], [''b'']] [] = Some s"
    by auto
  from initialize_cutoff[OF s] s show ?thesis by simp
qed

section \<open>The visitor\<close>

text \<open>
  A run depends on the visitor only through its answers to the solutions it is called
  with.
\<close>

lemma enter_level_visited:
  assumes "enter_level opts visit i w = Some r"
  shows "(\<exists>l i' w'. r = Inl (l, i', w') \<and> (visited w' = visited w \<or> (\<exists>os. visited w' = visited w @ [os] \<and> visit os))) \<or>
         (\<exists>w' os. r = Inr (Halted, w') \<and> visited w' = visited w @ [os] \<and> \<not> visit os)"
  using assms
  by (auto simp: enter_level_def Let_def bind_eq_Some_conv split: if_splits prod.splits)

lemma enter_level_agree:
  assumes "enter_level opts visit i w = Some r"
    and "\<forall>os. (case r of Inl (l, i', w') \<Rightarrow> visited w' | Inr (e, w') \<Rightarrow> visited w') = visited w @ [os] \<longrightarrow> visit' os = visit os"
  shows "enter_level opts visit' i w = Some r"
  using assms
  by (auto simp: enter_level_def Let_def bind_eq_Some_conv split: if_splits prod.splits)

lemma step_visited:
  assumes "step opts visit (l, i, w) = Some r"
  shows "\<exists>ys. (case r of Inl (l, i', w') \<Rightarrow> visited w' | Inr (e, w') \<Rightarrow> visited w') = visited w @ ys"
  using assms
  by (cases l) (auto simp: step_def enter_level_def try_level_def try_again_def backtrack_def leave_level_def Let_def bind_eq_Some_conv split: if_splits prod.splits option.splits)

lemma step_agree:
  assumes "step opts visit (l, i, w) = Some r"
    and "\<forall>os. (case r of Inl (l, i', w') \<Rightarrow> visited w' | Inr (e, w') \<Rightarrow> visited w') = visited w @ [os] \<longrightarrow> visit' os = visit os"
  shows "step opts visit' (l, i, w) = Some r"
  using assms enter_level_agree[of opts visit i w r visit']
  by (cases l) (simp_all add: step_def)

lemma run_agree:
  "run opts visit cfg = Some r \<Longrightarrow>
   (\<exists>ys. visited (snd r) = visited (snd (snd cfg)) @ ys \<and>
     ((\<forall>os\<in>set ys. visit' os = visit os) \<longrightarrow> run opts visit' cfg = Some r))"
proof (induction opts visit cfg r rule: run.raw_induct[rotated 1, consumes 1])
  case (1 run' opts visit cfg r)
  obtain l i w where cfg: "cfg = (l, i, w)" by (cases cfg) auto
  from 1(2) obtain r1 where r1: "step opts visit (l, i, w) = Some r1"
    and rest: "(case r1 of Inl cfg' \<Rightarrow> run' opts visit cfg' | Inr e \<Rightarrow> Some e) = Some r"
    by (auto simp: bind_eq_Some_conv cfg)
  from step_visited[OF r1] obtain ys1 where
    ys1: "(case r1 of Inl (l, i', w') \<Rightarrow> visited w' | Inr (e, w') \<Rightarrow> visited w') = visited w @ ys1" by blast
  show ?case
  proof (cases r1)
    case (Inl cfg')
    obtain l' i' w' where cfg': "cfg' = (l', i', w')" by (cases cfg') auto
    from Inl rest have "run' opts visit cfg' = Some r" by simp
    from 1(1)[OF this] obtain ys2 where
      ys2: "visited (snd r) = visited w' @ ys2"
      and ag: "(\<forall>os\<in>set ys2. visit' os = visit os) \<longrightarrow> run opts visit' cfg' = Some r"
      by (auto simp: cfg')
    from ys1 Inl cfg' have v1: "visited w' = visited w @ ys1" by simp
    have "run opts visit' cfg = Some r" if a: "\<forall>os\<in>set (ys1 @ ys2). visit' os = visit os"
    proof -
      have "step opts visit' (l, i, w) = Some r1"
        using step_agree[OF r1, of visit'] ys1 a by auto
      moreover from a ag have "run opts visit' cfg' = Some r" by simp
      ultimately show ?thesis using Inl cfg by (subst run.simps) simp
    qed
    with ys2 v1 cfg show ?thesis by (intro exI[of _ "ys1 @ ys2"]) simp
  next
    case (Inr e)
    with rest have re: "r = e" by simp
    obtain ex w' where e: "e = (ex, w')" by (cases e) auto
    from ys1 Inr e have v1: "visited w' = visited w @ ys1" by simp
    have "run opts visit' cfg = Some r" if a: "\<forall>os\<in>set ys1. visit' os = visit os"
    proof -
      have "step opts visit' (l, i, w) = Some r1"
        using step_agree[OF r1, of visit'] ys1 a by auto
      then show ?thesis using Inr cfg re by (subst run.simps) simp
    qed
    with v1 cfg re e show ?thesis by (intro exI[of _ ys1]) simp
  qed
qed

lemma XCC_agree:
  assumes "XCC items options secondary st xo visit = Some (Inr (e, w))"
    and "\<forall>os\<in>set (visited w). visit' os = visit os"
  shows "XCC items options secondary st xo visit' = Some (Inr (e, w))"
proof -
  let ?opts = "case xo of None \<Rightarrow> \<lparr>Minimax = False, MinimaxSingle = False, Exercise83 = False\<rparr> | Some opts \<Rightarrow> opts"
  from assms(1) have v: "validate items options secondary = None"
    by (cases "validate items options secondary") (auto simp: XCC_def Let_def)
  with assms(1) obtain cfg where cfg: "start items options secondary st = Some cfg"
    and run: "run ?opts visit cfg = Some (e, w)"
    by (auto simp: XCC_def Let_def bind_eq_Some_conv)
  from cfg have "visited (snd (snd cfg)) = []"
    by (auto simp: start_def bind_eq_Some_conv)
  with run_agree[OF run, of visit'] assms(2) have "run ?opts visit' cfg = Some (e, w)"
    by auto
  with v cfg show ?thesis by (simp add: XCC_def Let_def)
qed

section \<open>The toy problem\<close>

lemma toy_continue:
  "case XCC xccItems xccOptions xccSItems None None (\<lambda>_. True) of
     Some (Inr (e, w)) \<Rightarrow> e = Finished \<and> visited w = [xccExpected]
   | _ \<Rightarrow> False"
  by code_simp

lemma toy_halt:
  "case XCC xccItems xccOptions xccSItems None None (\<lambda>_. False) of
     Some (Inr (e, w)) \<Rightarrow> e = Halted \<and> visited w = [xccExpected]
   | _ \<Rightarrow> False"
  by code_simp

text \<open>
  Claim C1.  On the toy problem (primary p, q, r; secondary x, y; the five options of the
  test file), with default options (minimax disabled), \<^verbatim>\<open>XCC\<close> returns after calling the
  visitor exactly once, whatever the visitor answers, and the solution passed is
  \<open>[[q, x:A], [p, r, x:A, y]]\<close>.
\<close>

theorem toy_visited_once:
  "\<exists>e w. XCC xccItems xccOptions xccSItems None None visit = Some (Inr (e, w)) \<and>
         visited w = [xccExpected]"
proof (cases "visit xccExpected")
  case True
  from toy_continue obtain e w where
    r: "XCC xccItems xccOptions xccSItems None None (\<lambda>_. True) = Some (Inr (e, w))"
    and v: "visited w = [xccExpected]"
    by (auto split: option.splits sum.splits)
  from XCC_agree[OF r, of visit] v True show ?thesis by auto
next
  case False
  from toy_halt obtain e w where
    r: "XCC xccItems xccOptions xccSItems None None (\<lambda>_. False) = Some (Inr (e, w))"
    and v: "visited w = [xccExpected]"
    by (auto split: option.splits sum.splits)
  from XCC_agree[OF r, of visit] v False show ?thesis by auto
qed

section \<open>Runs that contradict the specification\<close>

text \<open>
  Claim C2 fails as stated.  Under minimax the nodes past the cutoff are unlinked for
  good: on primary \<open>a\<close>, secondary \<open>x, y, z\<close>, options \<open>{a,x}, {a,y}, {a,z}\<close> the search
  ends at C8 with other arrays than \<^verbatim>\<open>initialize\<close> built.  Without minimax the
  \<^verbatim>\<open>color\<close> entry of an item header is scratch storage that \<^verbatim>\<open>purify\<close> writes and
  nothing restores: on the toy problem the header of \<open>x\<close> (index 4) ends with color 1.
\<close>

theorem arrays_not_restored:
  "(case XCC [''a''] [[''a'', ''x''], [''a'', ''y''], [''a'', ''z'']] [''x'', ''y'', ''z''] None
           (Some minimax) (\<lambda>_. True) of
      Some (Inr (e, w)) \<Rightarrow>
        e = Finished \<and>
        Some (arrays (tab w)) \<noteq>
          map_option arrays
            (initialize [''a''] [[''a'', ''x''], [''a'', ''y''], [''a'', ''z'']] [''x'', ''y'', ''z''])
    | _ \<Rightarrow> False) \<and>
   (case XCC xccItems xccOptions xccSItems None None (\<lambda>_. True) of
      Some (Inr (e, w)) \<Rightarrow>
        e = Finished \<and> rd (color (tab w)) 4 = Some 1 \<and>
        map_option color (initialize xccItems xccOptions xccSItems) \<noteq> Some (color (tab w))
    | _ \<Rightarrow> False)"
  by code_simp

text \<open>
  Claim C3 says that a visit updates the cutoff only when the candidate is strictly
  smaller.  The code tests \<^verbatim>\<open>pp != cutoff\<close>.  On primary \<open>a, b\<close>, secondary \<open>y\<close>,
  options \<open>{a,y:A}, {a}, {b}, {b,y}\<close> under minimax, the driver is at C2 after 18
  transitions with cutoff 11 (the spacer after the third option) and two solutions
  visited; the next transition visits \<open>[{a}, {b,y}]\<close>, whose largest option is the fourth,
  and raises the cutoff to 14.
\<close>

theorem cutoff_raised_by_visit:
  "(case start [''a'', ''b''] [[''a'', ''y:A''], [''a''], [''b''], [''b'', ''y'']] [''y''] None \<bind>
         nsteps 18 minimax (\<lambda>_. True) of
      Some (l, i, w) \<Rightarrow>
        l = C2 \<and> cutoff (tab w) = 11 \<and>
        visited w = [[[''a'', ''y:A''], [''b'']], [[''a''], [''b'']]]
    | None \<Rightarrow> False) \<and>
   (case start [''a'', ''b''] [[''a'', ''y:A''], [''a''], [''b''], [''b'', ''y'']] [''y''] None \<bind>
         nsteps 19 minimax (\<lambda>_. True) of
      Some (l, i, w) \<Rightarrow>
        l = C8 \<and> cutoff (tab w) = 14 \<and>
        visited w = [[[''a'', ''y:A''], [''b'']], [[''a''], [''b'']], [[''a''], [''b'', ''y'']]]
    | None \<Rightarrow> False)"
  by code_simp

text \<open>
  Claim C4 says that the forced unwind of minimax-single uncommits the items of each
  option it leaves before uncovering the item branched on.  The code only uncovers.  On
  primary \<open>a, b\<close>, secondary \<open>x, y, z\<close>, options \<open>{a,x}, {a,y}, {a,z}, {b,y}\<close> the driver
  is at C2, level 2, after 4 transitions; the visit unwinds to level 0, and there the
  secondary list (from its head, index 6) holds \<open>z\<close> only: \<open>x\<close> and \<open>y\<close>, covered when
  the two options were committed, stay covered, where the tables built by
  \<^verbatim>\<open>initialize\<close> have \<open>x\<close> (index 3) first in that list.
\<close>

theorem unwind_without_uncommit:
  "(case start [''a'', ''b''] [[''a'', ''x''], [''a'', ''y''], [''a'', ''z''], [''b'', ''y'']]
           [''x'', ''y'', ''z''] None of
      Some (l, i, w) \<Rightarrow> rd (rlink (tab w)) 6 = Some 3
    | None \<Rightarrow> False) \<and>
   (case start [''a'', ''b''] [[''a'', ''x''], [''a'', ''y''], [''a'', ''z''], [''b'', ''y'']]
           [''x'', ''y'', ''z''] None \<bind> nsteps 4 minimax_single (\<lambda>_. True) of
      Some (l, i, w) \<Rightarrow> l = C2 \<and> level (tab w) = 2 \<and> visited w = []
    | None \<Rightarrow> False) \<and>
   (case start [''a'', ''b''] [[''a'', ''x''], [''a'', ''y''], [''a'', ''z''], [''b'', ''y'']]
           [''x'', ''y'', ''z''] None \<bind> nsteps 5 minimax_single (\<lambda>_. True) of
      Some (l, i, w) \<Rightarrow>
        l = C8 \<and> level (tab w) = 0 \<and> cutoff (tab w) = 15 \<and>
        visited w = [[[''b'', ''y''], [''a'', ''x'']]] \<and>
        rd (rlink (tab w)) 6 = Some 5 \<and> rd (rlink (tab w)) 5 = Some 6
    | None \<Rightarrow> False)"
  by code_simp

text \<open>
  Claim C5 fails as stated.  On the toy problem the driver is at C2 after two
  transitions, with the option \<open>{p, q, x, y:A}\<close> chosen; item \<open>y\<close> (index 5) is still in
  the secondary list (its predecessor is the list head 6), but it is purified: covering
  and uncovering it there does not give the arrays back.
\<close>

theorem cover_uncover_purified:
  "case start xccItems xccOptions xccSItems None \<bind> nsteps 2 off (\<lambda>_. True) of
     Some (l, i, w) \<Rightarrow>
       l = C2 \<and> rd (rlink (tab w)) 6 = Some 5 \<and>
       map_option arrays (cover 5 (tab w) \<bind> uncover off 5) \<noteq> Some (arrays (tab w))
   | None \<Rightarrow> False"
  by code_simp

text \<open>
  Claim C6 fails as stated.  In the tables \<^verbatim>\<open>initialize\<close> builds for the toy problem,
  node 10 (\<open>y:A\<close> in the first option) has color 1 and belongs to the active secondary item
  \<open>y\<close> (index 5); it is on the list of its item, so \<^verbatim>\<open>purify\<close> marks the node itself
  with -1 and \<^verbatim>\<open>unpurify\<close> then reads -1 as the color to restore; the header's color is
  set to 1 and stays.
\<close>

theorem purify_unpurify_linked_node:
  "case initialize xccItems xccOptions xccSItems of
     Some s \<Rightarrow>
       rd (color s) 10 = Some 1 \<and> rd (top' s) 10 = Some 5 \<and> rd (rlink s) 4 = Some 5 \<and>
       map_option arrays (purify 10 s \<bind> unpurify off 10) \<noteq> Some (arrays s)
   | None \<Rightarrow> False"
  by code_simp

text \<open>
  Claim C7 says that after every C2/C8 transition under minimax no node past the cutoff
  is on the vertical list of an active item.  On primary \<open>a, b\<close>, secondary \<open>x\<close>, options
  \<open>{b, a, x:A}, {b, x}\<close> the third transition is the visit of \<open>[{b, a, x:A}]\<close>; it leaves
  the driver at C8 with cutoff 8, item \<open>x\<close> (index 3) in the secondary list (it follows
  the head 4) and node 10 first on the vertical list of \<open>x\<close>.
\<close>

theorem node_past_cutoff_on_active_list:
  "case start [''a'', ''b''] [[''b'', ''a'', ''x:A''], [''b'', ''x'']] [''x''] None \<bind>
        nsteps 3 minimax (\<lambda>_. True) of
     Some (l, i, w) \<Rightarrow>
       l = C8 \<and> cutoff (tab w) = 8 \<and> rd (rlink (tab w)) 4 = Some 3 \<and>
       rd (dlink (tab w)) 3 = Some 10
   | None \<Rightarrow> False"
  by code_simp

end
